theory Spec2Isabelle
  imports Complex_Main
begin

section \<open>Numbers, objects and the store\<close>

text \<open>
  The simulator of \<^verbatim>\<open>src/src/IonTrapVisualizer.tsx\<close> computes on JavaScript numbers.
  They are modelled by the reals, with exact arithmetic: a decimal literal is the rational it
  denotes (\<^verbatim>\<open>1e-3\<close> is \<open>1 / 1000\<close>), \<^verbatim>\<open>Math.cos\<close> is \<open>cos\<close> and
  \<^verbatim>\<open>Math.abs\<close> is \<open>abs\<close>. Rounding, infinities and NaN are outside this model.

  An optional field (\<^verbatim>\<open>x?: number\<close>) is a \<open>real option\<close>, \<open>None\<close> for an absent
  field. The trajectory points are objects: a point lives in a store, the array
  \<^verbatim>\<open>trajectory\<close> holds references to points, and so does the field
  \<^verbatim>\<open>lastStablePosition\<close> (\<open>None\<close> for \<^verbatim>\<open>null\<close>).
\<close>

datatype error = TypeError

record point =
  pt_t :: real
  pt_x :: real
  pt_y :: real
  pt_stable :: bool

type_synonym ref = nat

type_synonym heap = "point list"

text \<open>An object literal allocates a new object: the next free address of the store.\<close>

definition alloc :: "heap \<Rightarrow> point \<Rightarrow> ref \<times> heap" where
  "alloc h p = (length h, h @ [p])"

text \<open>Reading \<^verbatim>\<open>a[i]\<close>: \<open>None\<close> is \<^verbatim>\<open>undefined\<close>, the value out of range.\<close>

definition index :: "'a list \<Rightarrow> int \<Rightarrow> 'a option" where
  "index a i = (if 0 \<le> i \<and> i < int (length a) then Some (a ! nat i) else None)"

text \<open>
  \<^verbatim>\<open>v || d\<close> on an optional number: \<open>d\<close> when \<open>v\<close> is falsy, that is absent or zero.
\<close>

definition or_default :: "real option \<Rightarrow> real \<Rightarrow> real" where
  "or_default v d = (case v of None \<Rightarrow> d | Some n \<Rightarrow> if n = 0 then d else n)"

section \<open>The simulator\<close>

record params =
  p_U :: "real option"
  p_V :: "real option"
  p_omega :: "real option"

record initialConditions =
  ic_x :: "real option"
  ic_y :: "real option"
  ic_vx :: "real option"
  ic_vy :: "real option"

record simulator =
  sim_e :: real
  sim_m :: real
  sim_r0 :: real
  sim_U :: real
  sim_V :: real
  sim_omega :: real
  sim_ax :: real
  sim_qx :: real
  sim_ay :: real
  sim_qy :: real
  lastStablePosition :: "ref option"

definition calculateAx :: "simulator \<Rightarrow> real" where
  "calculateAx this =
     (8 * sim_e this * sim_U this) /
     (sim_m this * sim_r0 this * sim_r0 this * sim_omega this * sim_omega this)"

definition calculateQx :: "simulator \<Rightarrow> real" where
  "calculateQx this =
     (- 4 * sim_e this * sim_V this) /
     (sim_m this * sim_r0 this * sim_r0 this * sim_omega this * sim_omega this)"

text \<open>
  The constructor. The field initialisers run first; the four coefficients are unassigned
  until the constructor body sets them, and are never read before (\<open>0\<close> stands for
  the unassigned field).
\<close>

definition IonTrapSimulator :: "params \<Rightarrow> simulator" where
  "IonTrapSimulator ps =
     (let this = \<lparr>sim_e = 160217663 / 10 ^ 27, sim_m = 167262192 / 10 ^ 35,
                  sim_r0 = 1 / 100,
                  sim_U = or_default (p_U ps) 0,
                  sim_V = or_default (p_V ps) 0,
                  sim_omega = or_default (p_omega ps) 1000000,
                  sim_ax = 0, sim_qx = 0, sim_ay = 0, sim_qy = 0,
                  lastStablePosition = None\<rparr>;
          this = this\<lparr>sim_ax := calculateAx this\<rparr>;
          this = this\<lparr>sim_qx := calculateQx this\<rparr>;
          this = this\<lparr>sim_ay := - sim_ax this\<rparr>;
          this = this\<lparr>sim_qy := - sim_qx this\<rparr>
      in this)"

text \<open>The constructor's default argument \<^verbatim>\<open>{}\<close>.\<close>

definition no_params :: params where
  "no_params = \<lparr>p_U = None, p_V = None, p_omega = None\<rparr>"

text \<open>An initial-condition record with no field set.\<close>

definition no_initialConditions :: initialConditions where
  "no_initialConditions = \<lparr>ic_x = None, ic_y = None, ic_vx = None, ic_vy = None\<rparr>"

definition calculateForceX :: "simulator \<Rightarrow> real \<Rightarrow> real \<Rightarrow> real" where
  "calculateForceX this x t =
     - ((2 * sim_e this) / (sim_r0 this * sim_r0 this)) *
     (sim_U this + sim_V this * cos (sim_omega this * t)) * x"

definition calculateForceY :: "simulator \<Rightarrow> real \<Rightarrow> real \<Rightarrow> real" where
  "calculateForceY this y t =
     ((2 * sim_e this) / (sim_r0 this * sim_r0 this)) *
     (sim_U this + sim_V this * cos (sim_omega this * t)) * y"

text \<open>
  The \<^verbatim>\<open>while\<close> loop of \<^verbatim>\<open>simulate\<close>, on the local variables of the method and the
  store. The loop may run forever (for \<open>dt \<le> 0\<close>, say): \<open>None\<close> is a run that does not
  return. On escape the source reads \<^verbatim>\<open>trajectory[Math.max(0, trajectory.length - 2)]\<close>
  and then writes \<^verbatim>\<open>trajectory[trajectory.length - 1].stable\<close>; the write raises
  \<^verbatim>\<open>TypeError\<close> on \<^verbatim>\<open>undefined\<close>, and the first read is \<^verbatim>\<open>undefined\<close> only
  when the array is empty, where the write raises.
\<close>

partial_function (option) simulate_loop ::
  "simulator \<Rightarrow> real \<Rightarrow> real \<Rightarrow> heap \<Rightarrow> ref list \<Rightarrow> real \<Rightarrow> real \<Rightarrow> real \<Rightarrow> real \<Rightarrow> real \<Rightarrow>
   (error + ref list \<times> simulator \<times> heap) option" where
  "simulate_loop this t_max dt h trajectory x y vx vy t =
     (if t < t_max then
        (let fx = calculateForceX this x t;
             fy = calculateForceY this y t;
             ax = fx / sim_m this;
             ay = fy / sim_m this;
             vx = vx + ax * dt;
             vy = vy + ay * dt;
             x = x + vx * dt;
             y = y + vy * dt;
             point = \<lparr>pt_t = t * 1000000, pt_x = x * 1000, pt_y = y * 1000,
                      pt_stable = True\<rparr>;
             (r, h) = alloc h point;
             trajectory = trajectory @ [r]
         in if \<bar>x\<bar> > sim_r0 this \<or> \<bar>y\<bar> > sim_r0 this then
              (case index trajectory (max 0 (int (length trajectory) - 2)) of
                 None \<Rightarrow> Some (Inl TypeError)
               | Some p \<Rightarrow>
                   (case index trajectory (int (length trajectory) - 1) of
                      None \<Rightarrow> Some (Inl TypeError)
                    | Some l \<Rightarrow>
                        Some (Inr (trajectory, this\<lparr>lastStablePosition := Some p\<rparr>,
                                   h[l := (h ! l)\<lparr>pt_stable := False\<rparr>]))))
            else simulate_loop this t_max dt h trajectory x y vx vy (t + dt))
      else Some (Inr (trajectory, this, h)))"

definition simulate ::
  "simulator \<Rightarrow> heap \<Rightarrow> initialConditions \<Rightarrow> real \<Rightarrow> real \<Rightarrow>
   (error + ref list \<times> simulator \<times> heap) option" where
  "simulate this h initialConditions t_max dt =
     (let x = or_default (ic_x initialConditions) (1 / 1000);
          y = or_default (ic_y initialConditions) (1 / 1000);
          vx = or_default (ic_vx initialConditions) 0;
          vy = or_default (ic_vy initialConditions) 0;
          t = 0;
          trajectory = [];
          this = this\<lparr>lastStablePosition := None\<rparr>
      in simulate_loop this t_max dt h trajectory x y vx vy t)"

text \<open>
  \<^verbatim>\<open>isStable\<close> reads the fields \<^verbatim>\<open>x\<close> and \<^verbatim>\<open>y\<close> of the object that
  \<^verbatim>\<open>lastStablePosition\<close> refers to, so it takes the store as well.
\<close>

definition isStable :: "heap \<Rightarrow> simulator \<Rightarrow> bool" where
  "isStable h this =
     (let stable_x = (\<bar>sim_qx this\<bar> < 908 / 1000 \<and> \<bar>sim_ax this\<bar> < 237 / 1000);
          stable_y = (\<bar>sim_qy this\<bar> < 908 / 1000 \<and> \<bar>sim_ay this\<bar> < 237 / 1000);
          theoreticallyStable = (stable_x \<and> stable_y);
          practicallyStable =
            (case lastStablePosition this of
               None \<Rightarrow> True
             | Some r \<Rightarrow>
                 \<bar>pt_x (h ! r) / 1000\<bar> < sim_r0 this * (8 / 10) \<and>
                 \<bar>pt_y (h ! r) / 1000\<bar> < sim_r0 this * (8 / 10))
      in theoreticallyStable \<and> practicallyStable)"

section \<open>The presentation shell\<close>


text \<open>
  What a caller of \<^verbatim>\<open>simulate\<close> holds: the objects of the returned array, in order
  (\<open>returned\<close> for a result, \<open>trajectory_of\<close> for a call, empty when there is no array).
\<close>

definition returned :: "error + ref list \<times> simulator \<times> heap \<Rightarrow> error + point list" where
  "returned r = (case r of Inl e \<Rightarrow> Inl e | Inr (trajectory, this, h) \<Rightarrow> Inr (map (nth h) trajectory))"

definition trajectory_of :: "(error + ref list \<times> simulator \<times> heap) option \<Rightarrow> point list" where
  "trajectory_of res =
     (case res of Some (Inr (trajectory, this, h)) \<Rightarrow> map (nth h) trajectory | _ \<Rightarrow> [])"

section \<open>The loop, iteration by iteration\<close>

text \<open>
  The local variables \<^verbatim>\<open>x\<close>, \<^verbatim>\<open>y\<close>, \<^verbatim>\<open>vx\<close>, \<^verbatim>\<open>vy\<close> and \<^verbatim>\<open>t\<close> of
  \<^verbatim>\<open>simulate\<close> as one value, the arithmetic of one pass through the loop body on it
  (\<open>step\<close>), the state after \<open>k\<close> passes (\<open>after\<close>), the escape test of the
  loop (\<open>outside\<close>), the object a pass pushes (\<open>point_of\<close>) and the objects of
  \<open>n\<close> passes (\<open>pts\<close>). \<open>cont n\<close> holds when the loop makes \<open>n\<close> passes that
  end in \<^verbatim>\<open>t += dt\<close>; \<open>final\<close> is the way the loop is left after them: by its
  condition, or by \<^verbatim>\<open>break\<close> in one more pass.
\<close>

record KinematicState =
  k_x :: real
  k_y :: real
  k_vx :: real
  k_vy :: real
  k_t :: real

definition step :: "simulator \<Rightarrow> real \<Rightarrow> KinematicState \<Rightarrow> KinematicState" where
  "step this dt st =
     (let fx = calculateForceX this (k_x st) (k_t st);
          fy = calculateForceY this (k_y st) (k_t st);
          ax = fx / sim_m this;
          ay = fy / sim_m this;
          vx = k_vx st + ax * dt;
          vy = k_vy st + ay * dt;
          x = k_x st + vx * dt;
          y = k_y st + vy * dt
      in \<lparr>k_x = x, k_y = y, k_vx = vx, k_vy = vy, k_t = k_t st + dt\<rparr>)"

fun after :: "simulator \<Rightarrow> real \<Rightarrow> nat \<Rightarrow> KinematicState \<Rightarrow> KinematicState" where
  "after this dt 0 st = st"
| "after this dt (Suc k) st = after this dt k (step this dt st)"

definition outside :: "simulator \<Rightarrow> KinematicState \<Rightarrow> bool" where
  "outside this st = (\<bar>k_x st\<bar> > sim_r0 this \<or> \<bar>k_y st\<bar> > sim_r0 this)"

definition point_of :: "simulator \<Rightarrow> real \<Rightarrow> KinematicState \<Rightarrow> point" where
  "point_of this dt st =
     \<lparr>pt_t = k_t st * 1000000, pt_x = k_x (step this dt st) * 1000,
      pt_y = k_y (step this dt st) * 1000, pt_stable = True\<rparr>"

fun pts :: "simulator \<Rightarrow> real \<Rightarrow> nat \<Rightarrow> KinematicState \<Rightarrow> point list" where
  "pts this dt 0 st = []"
| "pts this dt (Suc n) st = point_of this dt st # pts this dt n (step this dt st)"

fun cont :: "simulator \<Rightarrow> real \<Rightarrow> real \<Rightarrow> nat \<Rightarrow> KinematicState \<Rightarrow> bool" where
  "cont this t_max dt 0 st = True"
| "cont this t_max dt (Suc n) st =
     (k_t st < t_max \<and> \<not> outside this (step this dt st) \<and> cont this t_max dt n (step this dt st))"

definition loopk ::
  "simulator \<Rightarrow> real \<Rightarrow> real \<Rightarrow> heap \<Rightarrow> ref list \<Rightarrow> KinematicState \<Rightarrow>
   (error + ref list \<times> simulator \<times> heap) option" where
  "loopk this t_max dt h traj st =
     simulate_loop this t_max dt h traj (k_x st) (k_y st) (k_vx st) (k_vy st) (k_t st)"

definition escape_result ::
  "simulator \<Rightarrow> real \<Rightarrow> heap \<Rightarrow> ref list \<Rightarrow> KinematicState \<Rightarrow> error + ref list \<times> simulator \<times> heap" where
  "escape_result this dt h traj st =
     Inr (traj @ [length h],
          this\<lparr>lastStablePosition := Some (if traj = [] then length h else last traj)\<rparr>,
          h @ [(point_of this dt st)\<lparr>pt_stable := False\<rparr>])"

definition final ::
  "simulator \<Rightarrow> real \<Rightarrow> real \<Rightarrow> heap \<Rightarrow> ref list \<Rightarrow> KinematicState \<Rightarrow>
   (error + ref list \<times> simulator \<times> heap) option" where
  "final this t_max dt h traj st =
     (if k_t st < t_max then
        if outside this (step this dt st) then Some (escape_result this dt h traj st) else None
      else Some (Inr (traj, this, h)))"

definition runs ::
  "simulator \<Rightarrow> real \<Rightarrow> real \<Rightarrow> heap \<Rightarrow> ref list \<Rightarrow> KinematicState \<Rightarrow>
   (error + ref list \<times> simulator \<times> heap) \<Rightarrow> bool" where
  "runs this t_max dt h traj st r =
     (\<exists>n. cont this t_max dt n st \<and>
          final this t_max dt (h @ pts this dt n st) (traj @ [length h..<length h + n])
            (after this dt n st) = Some r)"

text \<open>
  The local variables at the head of the loop (\<open>initial\<close>); the escape test read off a
  recorded point, whose coordinates are in millimetres (\<open>beyond\<close>); simulators that agree on
  the constants and the trap parameters (\<open>same_trap\<close>); and the two results of a run of
  \<^verbatim>\<open>simulate\<close> that made \<open>n\<close> full passes: the loop condition failed
  (\<open>completed\<close>), or pass \<open>n + 1\<close> left by \<^verbatim>\<open>break\<close> (\<open>escaped_at\<close>).
\<close>

definition initial :: "initialConditions \<Rightarrow> KinematicState" where
  "initial initialConditions =
     \<lparr>k_x = or_default (ic_x initialConditions) (1 / 1000),
      k_y = or_default (ic_y initialConditions) (1 / 1000),
      k_vx = or_default (ic_vx initialConditions) 0,
      k_vy = or_default (ic_vy initialConditions) 0,
      k_t = 0\<rparr>"

definition beyond :: "simulator \<Rightarrow> point \<Rightarrow> bool" where
  "beyond this p = (\<bar>pt_x p / 1000\<bar> > sim_r0 this \<or> \<bar>pt_y p / 1000\<bar> > sim_r0 this)"

definition same_trap :: "simulator \<Rightarrow> simulator \<Rightarrow> bool" where
  "same_trap a b =
     (sim_e a = sim_e b \<and> sim_m a = sim_m b \<and> sim_r0 a = sim_r0 b \<and>
      sim_U a = sim_U b \<and> sim_V a = sim_V b \<and> sim_omega a = sim_omega b)"

definition completed ::
  "simulator \<Rightarrow> real \<Rightarrow> heap \<Rightarrow> KinematicState \<Rightarrow> nat \<Rightarrow> error + ref list \<times> simulator \<times> heap" where
  "completed this dt h st n =
     Inr ([length h..<length h + n], this\<lparr>lastStablePosition := None\<rparr>, h @ pts this dt n st)"

definition escaped_at ::
  "simulator \<Rightarrow> real \<Rightarrow> heap \<Rightarrow> KinematicState \<Rightarrow> nat \<Rightarrow> error + ref list \<times> simulator \<times> heap" where
  "escaped_at this dt h st n =
     Inr ([length h..<length h + Suc n],
          this\<lparr>lastStablePosition := Some (length h + (n - 1))\<rparr>,
          h @ pts this dt n st @ [(point_of this dt (after this dt n st))\<lparr>pt_stable := False\<rparr>])"

section \<open>The loop returns what its passes compute\<close>

lemma nat_int_pred: "nat (int n - 1) = n - 1"
  by arith

lemma loopk_step:
  "loopk this t_max dt h traj st =
     (if k_t st < t_max then
        if outside this (step this dt st) then Some (escape_result this dt h traj st)
        else loopk this t_max dt (h @ [point_of this dt st]) (traj @ [length h]) (step this dt st)
      else Some (Inr (traj, this, h)))"
  unfolding loopk_def
  apply (subst simulate_loop.simps)
  apply (cases "traj = []")
  apply (simp_all add: step_def outside_def point_of_def escape_result_def alloc_def index_def Let_def
      nth_append last_conv_nth nat_int_pred)
  done

lemma upt_shift: "a # [Suc a..<Suc a + n] = [a..<a + Suc n]"
  by (simp add: upt_conv_Cons del: upt_Suc)

lemma kin_eta:
  "\<lparr>k_x = k_x s, k_y = k_y s, k_vx = k_vx s, k_vy = k_vy s, k_t = k_t s\<rparr> = (s::KinematicState)"
  by (cases s) simp

lemma loopk_cont:
  "cont this t_max dt n st \<Longrightarrow>
   loopk this t_max dt h traj st =
   loopk this t_max dt (h @ pts this dt n st) (traj @ [length h..<length h + n]) (after this dt n st)"
proof (induction n arbitrary: h traj st)
  case 0
  show ?case by simp
next
  case (Suc n)
  from Suc.prems have c: "k_t st < t_max" "\<not> outside this (step this dt st)"
    "cont this t_max dt n (step this dt st)" by simp_all
  have "loopk this t_max dt h traj st =
        loopk this t_max dt (h @ [point_of this dt st]) (traj @ [length h]) (step this dt st)"
    using c by (subst loopk_step) simp
  also have "\<dots> = loopk this t_max dt ((h @ [point_of this dt st]) @ pts this dt n (step this dt st))
      ((traj @ [length h]) @ [length (h @ [point_of this dt st])..<length (h @ [point_of this dt st]) + n])
      (after this dt n (step this dt st))"
    by (rule Suc.IH [OF c(3)])
  finally show ?case using upt_shift [of "length h" n] by (simp del: upt_Suc)
qed

lemma loopk_final:
  "final this t_max dt h traj st = Some r \<Longrightarrow> loopk this t_max dt h traj st = Some r"
  by (subst loopk_step) (auto simp: final_def split: if_splits)

lemma loopk_complete:
  assumes "cont this t_max dt n st"
    and "final this t_max dt (h @ pts this dt n st) (traj @ [length h..<length h + n])
           (after this dt n st) = Some r"
  shows "loopk this t_max dt h traj st = Some r"
  using loopk_cont [OF assms(1)] loopk_final [OF assms(2)] by simp

lemma runs_stop: "\<not> k_t st < t_max \<Longrightarrow> runs this t_max dt h traj st (Inr (traj, this, h))"
  unfolding runs_def by (rule exI [of _ 0]) (simp add: final_def)

lemma runs_escape:
  "k_t st < t_max \<Longrightarrow> outside this (step this dt st) \<Longrightarrow>
   runs this t_max dt h traj st (escape_result this dt h traj st)"
  unfolding runs_def by (rule exI [of _ 0]) (simp add: final_def)

lemma runs_continue:
  assumes "k_t st < t_max" "\<not> outside this (step this dt st)"
    and "runs this t_max dt (h @ [point_of this dt st]) (traj @ [length h]) (step this dt st) r"
  shows "runs this t_max dt h traj st r"
proof -
  from assms(3) obtain n where n: "cont this t_max dt n (step this dt st)"
    "final this t_max dt ((h @ [point_of this dt st]) @ pts this dt n (step this dt st))
       ((traj @ [length h]) @ [length (h @ [point_of this dt st])..<length (h @ [point_of this dt st]) + n])
       (after this dt n (step this dt st)) = Some r"
    unfolding runs_def by blast
  show ?thesis
    unfolding runs_def
    using assms(1,2) n upt_shift [of "length h" n]
    by (intro exI [of _ "Suc n"]) (simp del: upt_Suc)
qed

text \<open>
  Every result of the loop is the result of finitely many passes: fixpoint induction on the
  loop, one case for each way through its body.
\<close>

lemma loop_sound_raw:
  "simulate_loop this t_max dt h traj x y vx vy t = Some r \<Longrightarrow>
   runs this t_max dt h traj \<lparr>k_x = x, k_y = y, k_vx = vx, k_vy = vy, k_t = t\<rparr> r"
proof -
  assume a: "simulate_loop this t_max dt h traj x y vx vy t = Some r"
  let ?P = "\<lambda>this t_max dt h traj x y vx vy t r.
     runs this t_max dt h traj \<lparr>k_x = x, k_y = y, k_vx = vx, k_vy = vy, k_t = t\<rparr> r"
  have "case_prod (case_prod (case_prod (case_prod (case_prod (case_prod (case_prod
          (case_prod (case_prod ?P))))))))
          (((((((((this, t_max), dt), h), traj), x), y), vx), vy), t) r"
  proof (rule simulate_loop.raw_induct [where P = ?P])
    show "(case (((((((((this, t_max), dt), h), traj), x), y), vx), vy), t) of
      (x, xa) \<Rightarrow> (case x of (x, xa) \<Rightarrow> (case x of (x, xa) \<Rightarrow> (case x of (x, xa) \<Rightarrow>
      (case x of (x, xa) \<Rightarrow> (case x of (x, xa) \<Rightarrow> (case x of (x, xa) \<Rightarrow>
      (case x of (x, xa) \<Rightarrow> (case x of (x, xa) \<Rightarrow> simulate_loop x xa) xa) xa) xa) xa) xa) xa) xa) xa) = Some r"
      using a by simp
  next
    fix f this t_max dt h traj x y vx vy t r
    assume IH: "\<And>this t_max dt h traj x y vx vy t r. f this t_max dt h traj x y vx vy t = Some r \<Longrightarrow>
       ?P this t_max dt h traj x y vx vy t r"
    let ?st = "\<lparr>k_x = x, k_y = y, k_vx = vx, k_vy = vy, k_t = t\<rparr>"
    let ?st' = "step this dt ?st"
    assume b: "(if t < t_max
      then let fx = calculateForceX this x t; fy = calculateForceY this y t;
               ax = fx / sim_m this; ay = fy / sim_m this;
               vx = vx + ax * dt; vy = vy + ay * dt; x = x + vx * dt;
               y = y + vy * dt;
               point = \<lparr>pt_t = t * 1000000, pt_x = x * 1000, pt_y = y * 1000, pt_stable = True\<rparr>;
               (r, h) = alloc h point; trajectory = traj @ [r]
           in if sim_r0 this < \<bar>x\<bar> \<or> sim_r0 this < \<bar>y\<bar>
              then case index trajectory (max 0 (int (length trajectory) - 2)) of
                   None \<Rightarrow> Some (Inl TypeError)
                   | Some p \<Rightarrow>
                       case index trajectory (int (length trajectory) - 1) of
                       None \<Rightarrow> Some (Inl TypeError)
                       | Some l \<Rightarrow>
                           Some (Inr (trajectory, this\<lparr>lastStablePosition := Some p\<rparr>,
                                  h[l := (h ! l)\<lparr>pt_stable := False\<rparr>]))
              else f this t_max dt h trajectory x y vx vy (t + dt)
      else Some (Inr (traj, this, h))) = Some r"
    show "?P this t_max dt h traj x y vx vy t r"
    proof (cases "t < t_max")
      case False
      with b have "r = Inr (traj, this, h)" by simp
      with False show ?thesis using runs_stop [of ?st t_max this dt h traj] by simp
    next
      case True
      show ?thesis
      proof (cases "outside this ?st'")
        case o: True
        have "r = escape_result this dt h traj ?st"
          using b True o
          by (cases "traj = []")
            (simp_all add: step_def outside_def point_of_def escape_result_def alloc_def index_def
              Let_def nth_append last_conv_nth nat_int_pred)
        with True o show ?thesis using runs_escape [of ?st t_max this dt h traj] by simp
      next
        case o: False
        have "f this t_max dt (h @ [point_of this dt ?st]) (traj @ [length h])
            (k_x ?st') (k_y ?st') (k_vx ?st') (k_vy ?st') (k_t ?st') = Some r"
          using b True o
          by (simp add: step_def outside_def point_of_def alloc_def Let_def)
        from IH [OF this]
        have "runs this t_max dt (h @ [point_of this dt ?st]) (traj @ [length h]) ?st' r"
          by (simp only: kin_eta)
        then show ?thesis using True o runs_continue [of ?st t_max this dt h traj r] by simp
      qed
    qed
  qed
  then show ?thesis by simp
qed

section \<open>Facts about the passes\<close>

lemma length_pts: "length (pts this dt n st) = n"
  by (induction n arbitrary: st) simp_all

lemma nth_pts: "k < n \<Longrightarrow> pts this dt n st ! k = point_of this dt (after this dt k st)"
proof (induction n arbitrary: st k)
  case 0
  then show ?case by simp
next
  case (Suc n)
  then show ?case by (cases k) simp_all
qed

lemma after_step: "after this dt k (step this dt st) = step this dt (after this dt k st)"
  by (induction k arbitrary: st) simp_all

lemma after_Suc: "after this dt (Suc k) st = step this dt (after this dt k st)"
  by (simp add: after_step)

lemma step_t: "k_t (step this dt st) = k_t st + dt"
  by (simp add: step_def Let_def)

lemma after_t: "k_t (after this dt k st) = k_t st + real k * dt"
  by (induction k arbitrary: st) (simp_all add: step_t algebra_simps)

lemma cont_iff:
  "cont this t_max dt n st \<longleftrightarrow>
   (\<forall>k<n. k_t (after this dt k st) < t_max \<and> \<not> outside this (after this dt (Suc k) st))"
proof (induction n arbitrary: st)
  case 0
  show ?case by simp
next
  case (Suc n)
  have split: "\<And>P. (\<forall>k<Suc n. P k) \<longleftrightarrow> (P 0 \<and> (\<forall>k<n. P (Suc k)))"
    by (auto simp: less_Suc_eq_0_disj)
  show ?case
    unfolding split by (simp add: Suc.IH)
qed

lemma step_same: "same_trap a b \<Longrightarrow> step a dt st = step b dt st"
  by (simp add: same_trap_def step_def calculateForceX_def calculateForceY_def)

lemma outside_same: "same_trap a b \<Longrightarrow> outside a st = outside b st"
  by (simp add: same_trap_def outside_def)

lemma point_of_same: "same_trap a b \<Longrightarrow> point_of a dt st = point_of b dt st"
  by (simp add: point_of_def step_same)

lemma after_same: "same_trap a b \<Longrightarrow> after a dt k st = after b dt k st"
  by (induction k arbitrary: st) (simp_all add: step_same)

lemma pts_same: "same_trap a b \<Longrightarrow> pts a dt n st = pts b dt n st"
  by (induction n arbitrary: st) (simp_all add: step_same point_of_same)

lemma cont_same: "same_trap a b \<Longrightarrow> cont a t_max dt n st = cont b t_max dt n st"
  by (induction n arbitrary: st) (simp_all add: step_same outside_same)

lemma same_trap_reset: "same_trap (this\<lparr>lastStablePosition := l\<rparr>) this"
  by (simp add: same_trap_def)

lemma same_trap_sym: "same_trap a b \<Longrightarrow> same_trap b a"
  by (simp add: same_trap_def)

lemma simulate_loopk:
  "simulate this h ic t_max dt =
   loopk (this\<lparr>lastStablePosition := None\<rparr>) t_max dt h [] (initial ic)"
  by (simp add: simulate_def loopk_def initial_def)

lemma simulate_reset:
  "simulate (this\<lparr>lastStablePosition := l\<rparr>) h ic t_max dt = simulate this h ic t_max dt"
  by (simp add: simulate_def)

lemma final_empty:
  "final this0 t_max dt (h @ pts this0 dt n st) ([] @ [length h..<length h + n]) (after this0 dt n st) = Some r \<longleftrightarrow>
   (\<not> k_t (after this0 dt n st) < t_max \<and>
      r = Inr ([length h..<length h + n], this0, h @ pts this0 dt n st)) \<or>
   (k_t (after this0 dt n st) < t_max \<and> outside this0 (after this0 dt (Suc n) st) \<and>
      r = Inr ([length h..<length h + Suc n],
               this0\<lparr>lastStablePosition := Some (length h + (n - 1))\<rparr>,
               h @ pts this0 dt n st @ [(point_of this0 dt (after this0 dt n st))\<lparr>pt_stable := False\<rparr>]))"
proof -
  have l: "(if [length h..<length h + n] = [] then length (h @ pts this0 dt n st)
            else last [length h..<length h + n]) = length h + (n - 1)"
    by (cases n) (simp_all add: length_pts)
  show ?thesis
    unfolding final_def escape_result_def after_Suc l
    by (auto simp: length_pts)
qed

section \<open>The runs of \<^verbatim>\<open>simulate\<close>\<close>

text \<open>
  A call of \<^verbatim>\<open>simulate\<close> returns exactly when, for some \<open>n\<close>, the loop makes \<open>n\<close>
  full passes and is then left; the result is \<open>completed\<close> or \<open>escaped_at\<close>.
\<close>

lemma simulate_iff:
  "simulate this h ic t_max dt = Some r \<longleftrightarrow>
   (\<exists>n. cont this t_max dt n (initial ic) \<and>
      (if k_t (after this dt n (initial ic)) < t_max
       then outside this (after this dt (Suc n) (initial ic)) \<and> r = escaped_at this dt h (initial ic) n
       else r = completed this dt h (initial ic) n))"
  (is "?L \<longleftrightarrow> ?R")
proof -
  let ?s0 = "this\<lparr>lastStablePosition := None\<rparr>"
  have s: "same_trap ?s0 this" by (rule same_trap_reset)
  have "?L \<longleftrightarrow> runs ?s0 t_max dt h [] (initial ic) r"
  proof
    assume ?L
    then have "simulate_loop ?s0 t_max dt h [] (k_x (initial ic)) (k_y (initial ic))
        (k_vx (initial ic)) (k_vy (initial ic)) (k_t (initial ic)) = Some r"
      by (simp add: simulate_loopk loopk_def)
    from loop_sound_raw [OF this] show "runs ?s0 t_max dt h [] (initial ic) r"
      by (simp only: kin_eta)
  next
    assume "runs ?s0 t_max dt h [] (initial ic) r"
    then show ?L
      unfolding runs_def simulate_loopk using loopk_complete by blast
  qed
  also have "\<dots> \<longleftrightarrow> ?R"
    unfolding runs_def final_empty
    unfolding cont_same [OF s] after_same [OF s] outside_same [OF s] pts_same [OF s]
      point_of_same [OF s] completed_def escaped_at_def
    by (intro arg_cong [where f = Ex] ext) auto
  finally show ?thesis .
qed

lemma map_nth_fresh: "map (nth (h @ xs)) [length h..<length h + length xs] = xs"
proof (rule nth_equalityI)
  show "length (map (nth (h @ xs)) [length h..<length h + length xs]) = length xs" by simp
next
  fix i
  assume "i < length (map (nth (h @ xs)) [length h..<length h + length xs])"
  then have "i < length xs" by simp
  then show "map (nth (h @ xs)) [length h..<length h + length xs] ! i = xs ! i"
    by (simp add: nth_append)
qed

lemma returned_completed: "returned (completed this dt h st n) = Inr (pts this dt n st)"
  using map_nth_fresh [of h "pts this dt n st"]
  by (simp add: returned_def completed_def length_pts)

lemma returned_escaped_at:
  "returned (escaped_at this dt h st n) =
   Inr (pts this dt n st @ [(point_of this dt (after this dt n st))\<lparr>pt_stable := False\<rparr>])"
  using map_nth_fresh
    [of h "pts this dt n st @ [(point_of this dt (after this dt n st))\<lparr>pt_stable := False\<rparr>]"]
  by (simp add: returned_def escaped_at_def length_pts del: upt_Suc)


lemma beyond_point_of: "beyond this (point_of this dt st) = outside this (step this dt st)"
  by (simp add: beyond_def point_of_def outside_def)

lemma beyond_point_of_unstable:
  "beyond this ((point_of this dt st)\<lparr>pt_stable := False\<rparr>) = outside this (step this dt st)"
  by (simp add: beyond_def point_of_def outside_def)

lemma beyond_update: "beyond (this\<lparr>lastStablePosition := l\<rparr>) p = beyond this p"
  by (simp add: beyond_def)

lemma pts_inside:
  assumes "cont this t_max dt n st" "p \<in> set (pts this dt n st)"
  shows "pt_stable p \<and> \<not> beyond this p"
proof -
  from assms(2) obtain k where k: "k < n" "p = pts this dt n st ! k"
    by (auto simp: in_set_conv_nth length_pts)
  then have p: "p = point_of this dt (after this dt k st)" by (simp add: nth_pts)
  from assms(1) k(1) have "\<not> outside this (after this dt (Suc k) st)"
    unfolding cont_iff by blast
  then show ?thesis
    unfolding p beyond_point_of after_Suc by (simp add: point_of_def)
qed

lemma run_stable_flags:
  assumes "simulate this h ic t_max dt = Some r"
  shows "\<exists>ps. returned r = Inr ps \<and> (0 < t_max \<longrightarrow> ps \<noteq> []) \<and>
    (if \<exists>p\<in>set ps. beyond this p
     then ps \<noteq> [] \<and> beyond this (last ps) \<and> \<not> pt_stable (last ps) \<and>
          (\<forall>p\<in>set (butlast ps). pt_stable p \<and> \<not> beyond this p)
     else \<forall>p\<in>set ps. pt_stable p)"
proof -
  let ?st = "initial ic"
  from assms obtain n where c: "cont this t_max dt n ?st"
    and r: "if k_t (after this dt n ?st) < t_max
       then outside this (after this dt (Suc n) ?st) \<and> r = escaped_at this dt h ?st n
       else r = completed this dt h ?st n"
    unfolding simulate_iff by blast
  show ?thesis
  proof (cases "k_t (after this dt n ?st) < t_max")
    case True
    let ?e = "(point_of this dt (after this dt n ?st))\<lparr>pt_stable := False\<rparr>"
    from True r have o: "outside this (after this dt (Suc n) ?st)"
      and ret: "returned r = Inr (pts this dt n ?st @ [?e])"
      by (simp_all add: returned_escaped_at)
    have e: "beyond this ?e" using o unfolding beyond_point_of_unstable after_Suc .
    show ?thesis
      using ret e pts_inside [OF c] by (intro exI [of _ "pts this dt n ?st @ [?e]"]) auto
  next
    case False
    with r have ret: "returned r = Inr (pts this dt n ?st)" by (simp add: returned_completed)
    have "0 < t_max \<longrightarrow> n \<noteq> 0" using False by (cases n) (auto simp: initial_def)
    then have ne: "0 < t_max \<longrightarrow> pts this dt n ?st \<noteq> []"
      using length_pts [of this dt n ?st] by auto
    show ?thesis
      using ret ne pts_inside [OF c] by (intro exI [of _ "pts this dt n ?st"]) auto
  qed
qed

lemma simulate_result:
  assumes "simulate this h ic t_max dt = Some r"
  shows "\<exists>trajectory h'. r = Inr (trajectory,
      this\<lparr>lastStablePosition :=
        if \<exists>p\<in>set (map (nth h') trajectory). beyond this p
        then Some (trajectory ! (if length trajectory = 1 then 0 else length trajectory - 2))
        else None\<rparr>, h')"
proof -
  let ?st = "initial ic"
  from assms obtain n where c: "cont this t_max dt n ?st"
    and r: "if k_t (after this dt n ?st) < t_max
       then outside this (after this dt (Suc n) ?st) \<and> r = escaped_at this dt h ?st n
       else r = completed this dt h ?st n"
    unfolding simulate_iff by blast
  show ?thesis
  proof (cases "k_t (after this dt n ?st) < t_max")
    case True
    let ?e = "(point_of this dt (after this dt n ?st))\<lparr>pt_stable := False\<rparr>"
    let ?traj = "[length h..<length h + Suc n]"
    let ?h = "h @ pts this dt n ?st @ [?e]"
    from True r have o: "outside this (after this dt (Suc n) ?st)"
      and r': "r = Inr (?traj, this\<lparr>lastStablePosition := Some (length h + (n - 1))\<rparr>, ?h)"
      by (simp_all add: escaped_at_def)
    have "returned r = Inr (map (nth ?h) ?traj)" unfolding r' returned_def by simp
    moreover have "returned r = Inr (pts this dt n ?st @ [?e])"
      using True r by (simp add: returned_escaped_at)
    ultimately have m: "map (nth ?h) ?traj = pts this dt n ?st @ [?e]" by simp
    have e: "beyond this ?e" using o unfolding beyond_point_of_unstable after_Suc .
    have b: "\<exists>p\<in>set (map (nth ?h) ?traj). beyond this p" unfolding m using e by simp
    have i: "?traj ! (if length ?traj = 1 then 0 else length ?traj - 2) = length h + (n - 1)"
      by (cases n) (simp_all add: nth_append del: upt_Suc)
    show ?thesis
      using r' b i by (intro exI [of _ ?traj] exI [of _ ?h]) (simp del: upt_Suc)
  next
    case False
    let ?traj = "[length h..<length h + n]"
    let ?h = "h @ pts this dt n ?st"
    from False r have r': "r = Inr (?traj, this\<lparr>lastStablePosition := None\<rparr>, ?h)"
      by (simp add: completed_def)
    have "returned r = Inr (map (nth ?h) ?traj)" unfolding r' returned_def by simp
    moreover have "returned r = Inr (pts this dt n ?st)"
      using False r by (simp add: returned_completed)
    ultimately have m: "map (nth ?h) ?traj = pts this dt n ?st" by simp
    have b: "\<not> (\<exists>p\<in>set (map (nth ?h) ?traj). beyond this p)"
      unfolding m using pts_inside [OF c] by blast
    show ?thesis
      using r' b by (intro exI [of _ ?traj] exI [of _ ?h]) simp
  qed
qed


lemma initial_t: "k_t (after this dt k (initial ic)) = real k * dt"
  by (simp add: after_t initial_def)

text \<open>
  With a positive step the clock passes every bound, so the run returns; the number of
  points is bounded by the number of clock values below \<open>t_max\<close>.
\<close>

lemma simulate_count:
  assumes "0 < dt" and below: "\<forall>k<N. real k * dt < t_max" and reach: "\<not> real N * dt < t_max"
  shows "\<exists>r ps. simulate this h ic t_max dt = Some r \<and> returned r = Inr ps \<and> length ps \<le> N \<and>
    ((\<forall>p\<in>set ps. \<not> beyond this p) \<longrightarrow> length ps = N)"
proof -
  let ?st = "initial ic"
  let ?Q = "\<lambda>k. k_t (after this dt k ?st) < t_max \<and> \<not> outside this (after this dt (Suc k) ?st)"
  have "\<not> ?Q N" using reach by (simp add: initial_t)
  then have "\<exists>n. \<not> ?Q n" by blast
  then obtain n where n: "\<not> ?Q n" "\<forall>m<n. \<not> \<not> ?Q m"
    unfolding exists_least_iff [of "\<lambda>n. \<not> ?Q n"] by blast
  then have c: "cont this t_max dt n ?st" unfolding cont_iff by blast
  have t: "\<forall>k<n. real k * dt < t_max" using n(2) by (simp add: initial_t)
  show ?thesis
  proof (cases "k_t (after this dt n ?st) < t_max")
    case True
    let ?e = "(point_of this dt (after this dt n ?st))\<lparr>pt_stable := False\<rparr>"
    from True n(1) have o: "outside this (after this dt (Suc n) ?st)" by blast
    have run: "simulate this h ic t_max dt = Some (escaped_at this dt h ?st n)"
      unfolding simulate_iff using c True o by (intro exI [of _ n]) simp
    have "n < N"
    proof (rule ccontr)
      assume "\<not> n < N"
      then have "real N * dt \<le> real n * dt" using assms(1) by simp
      with True reach show False by (simp add: initial_t)
    qed
    moreover have "beyond this ?e" using o unfolding beyond_point_of_unstable after_Suc .
    ultimately show ?thesis
      using run
      by (intro exI [of _ "escaped_at this dt h ?st n"] exI [of _ "pts this dt n ?st @ [?e]"])
        (auto simp: returned_escaped_at length_pts)
  next
    case False
    have run: "simulate this h ic t_max dt = Some (completed this dt h ?st n)"
      unfolding simulate_iff using c False by (intro exI [of _ n]) simp
    have "n = N"
    proof (rule ccontr)
      assume "n \<noteq> N"
      then consider "n < N" | "N < n" by linarith
      then show False
      proof cases
        case 1
        with below False show ?thesis by (simp add: initial_t)
      next
        case 2
        with t reach show ?thesis by blast
      qed
    qed
    then show ?thesis
      using run
      by (intro exI [of _ "completed this dt h ?st n"] exI [of _ "pts this dt n ?st"])
        (simp add: returned_completed length_pts)
  qed
qed

lemma simulate_terminates:
  assumes "0 < dt"
  shows "\<exists>r. simulate this h ic t_max dt = Some r"
proof -
  obtain N0 :: nat where N0: "t_max < real N0 * dt"
    using reals_Archimedean3 [OF assms] by blast
  then have "\<exists>N. \<not> real N * dt < t_max" by (intro exI [of _ N0]) simp
  then obtain N where N: "\<not> real N * dt < t_max" "\<forall>k<N. \<not> \<not> real k * dt < t_max"
    unfolding exists_least_iff [of "\<lambda>N. \<not> real N * dt < t_max"] by blast
  then have "\<forall>k<N. real k * dt < t_max" by blast
  from simulate_count [OF assms this N(1)] show ?thesis by blast
qed

lemma simulate_same:
  assumes "same_trap a b" and "simulate a h1 ic t_max dt = Some r1"
  shows "\<exists>r2. simulate b h2 ic t_max dt = Some r2 \<and> returned r2 = returned r1"
proof -
  let ?st = "initial ic"
  from assms(2) obtain n where c: "cont a t_max dt n ?st"
    and r: "if k_t (after a dt n ?st) < t_max
       then outside a (after a dt (Suc n) ?st) \<and> r1 = escaped_at a dt h1 ?st n
       else r1 = completed a dt h1 ?st n"
    unfolding simulate_iff by blast
  note s = assms(1)
  have c': "cont b t_max dt n ?st" using c by (simp add: cont_same [OF s])
  show ?thesis
  proof (cases "k_t (after a dt n ?st) < t_max")
    case True
    with r have o: "outside b (after b dt (Suc n) ?st)" and r1: "r1 = escaped_at a dt h1 ?st n"
      by (simp_all add: after_same [OF s] outside_same [OF s] del: after.simps)
    from True have t: "k_t (after b dt n ?st) < t_max" by (simp add: after_same [OF s])
    have "simulate b h2 ic t_max dt = Some (escaped_at b dt h2 ?st n)"
      unfolding simulate_iff using c' t o by (intro exI [of _ n]) simp
    moreover have "returned (escaped_at b dt h2 ?st n) = returned r1"
      unfolding r1 returned_escaped_at
      by (simp add: pts_same [OF s] point_of_same [OF s] after_same [OF s])
    ultimately show ?thesis by blast
  next
    case False
    with r have r1: "r1 = completed a dt h1 ?st n" by simp
    from False have t: "\<not> k_t (after b dt n ?st) < t_max" by (simp add: after_same [OF s])
    have "simulate b h2 ic t_max dt = Some (completed b dt h2 ?st n)"
      unfolding simulate_iff using c' t by (intro exI [of _ n]) simp
    moreover have "returned (completed b dt h2 ?st n) = returned r1"
      unfolding r1 returned_completed by (simp add: pts_same [OF s])
    ultimately show ?thesis by blast
  qed
qed

lemma simulate_same_eq:
  assumes "same_trap a b"
  shows "map_option returned (simulate a h1 ic t_max dt) =
         map_option returned (simulate b h2 ic t_max dt)"
proof (cases "simulate a h1 ic t_max dt")
  case (Some r1)
  from simulate_same [OF assms Some, of h2] show ?thesis using Some by auto
next
  case None
  show ?thesis
  proof (cases "simulate b h2 ic t_max dt")
    case n: None
    with None show ?thesis by simp
  next
    case (Some r2)
    from simulate_same [OF same_trap_sym [OF assms] Some, of h1] None show ?thesis by auto
  qed
qed




lemma constructed_mirror:
  "sim_ay (IonTrapSimulator ps) = - sim_ax (IonTrapSimulator ps) \<and>
   sim_qy (IonTrapSimulator ps) = - sim_qx (IonTrapSimulator ps) \<and>
   lastStablePosition (IonTrapSimulator ps) = None"
  by (simp add: IonTrapSimulator_def Let_def)

lemma isStable_null:
  assumes "sim_ay this = - sim_ax this" "sim_qy this = - sim_qx this"
  shows "isStable h (this\<lparr>lastStablePosition := None\<rparr>) \<longleftrightarrow>
    \<bar>sim_qx this\<bar> < 908 / 1000 \<and> \<bar>sim_ax this\<bar> < 237 / 1000"
  using assms by (auto simp: isStable_def Let_def)





section \<open>Three concrete runs\<close>

text \<open>
  A simulator built from \<^verbatim>\<open>{}\<close> has \<open>U = V = 0\<close>, so the force vanishes. From the default
  position the ion rests; with \<open>vx = 500000\<close> and \<^verbatim>\<open>dt = 1e-8\<close> it moves 5 mm in each
  pass and crosses \<open>r0\<close> in the second; with \<open>vx = 1000000\<close> it crosses in the first.
\<close>

lemmas eval_defs =
  simulate_def IonTrapSimulator_def no_params_def no_initialConditions_def or_default_def
  calculateAx_def calculateQx_def calculateForceX_def calculateForceY_def alloc_def index_def Let_def

lemma run_rest:
  "simulate (IonTrapSimulator no_params) [] no_initialConditions (2 / 10 ^ 8) (1 / 10 ^ 8) =
   Some (Inr ([0, 1], IonTrapSimulator no_params,
     [\<lparr>pt_t = 0, pt_x = 1, pt_y = 1, pt_stable = True\<rparr>,
      \<lparr>pt_t = 1 / 100, pt_x = 1, pt_y = 1, pt_stable = True\<rparr>]))"
  by (simp add: simulate_loop.simps eval_defs)

lemma run_escape2:
  "simulate (IonTrapSimulator no_params) [] (no_initialConditions\<lparr>ic_vx := Some 500000\<rparr>)
     (2 / 10 ^ 5) (1 / 10 ^ 8) =
   Some (Inr ([0, 1], (IonTrapSimulator no_params)\<lparr>lastStablePosition := Some 0\<rparr>,
     [\<lparr>pt_t = 0, pt_x = 6, pt_y = 1, pt_stable = True\<rparr>,
      \<lparr>pt_t = 1 / 100, pt_x = 11, pt_y = 1, pt_stable = False\<rparr>]))"
  by (simp add: simulate_loop.simps eval_defs)

lemma run_escape1:
  "simulate (IonTrapSimulator no_params) [] (no_initialConditions\<lparr>ic_vx := Some 1000000\<rparr>)
     (2 / 10 ^ 5) (1 / 10 ^ 8) =
   Some (Inr ([0], (IonTrapSimulator no_params)\<lparr>lastStablePosition := Some 0\<rparr>,
     [\<lparr>pt_t = 0, pt_x = 11, pt_y = 1, pt_stable = False\<rparr>]))"
  by (simp add: simulate_loop.simps eval_defs)

section \<open>The stable flags of a trajectory\<close>

text \<open>
  Claim C1. A run with a positive step returns. In every run that returns, with \<open>t_max > 0\<close>
  the trajectory is not empty; if no recorded point lies beyond the boundary \<open>r0\<close> (the run
  does not escape), every point has \<^verbatim>\<open>stable = true\<close>; if some point does (the run escapes),
  that point is the last one, it is the only one with \<^verbatim>\<open>stable = false\<close>, and no point
  before it lies beyond the boundary: the run stops at the escaping point.
\<close>

theorem simulate_stable_flags:
  "(0 < dt \<longrightarrow> (\<exists>r. simulate this h ic t_max dt = Some r)) \<and>
   (\<forall>r. simulate this h ic t_max dt = Some r \<longrightarrow>
      (\<exists>ps. returned r = Inr ps \<and> (0 < t_max \<longrightarrow> ps \<noteq> []) \<and>
         (if \<exists>p\<in>set ps. beyond this p
          then ps \<noteq> [] \<and> beyond this (last ps) \<and> \<not> pt_stable (last ps) \<and>
               (\<forall>p\<in>set (butlast ps). pt_stable p \<and> \<not> beyond this p)
          else \<forall>p\<in>set ps. pt_stable p)))"
  using simulate_terminates [of dt this h ic t_max] run_stable_flags [of this h ic t_max dt]
  by blast

theorem simulate_stable_flags_witness:
  "(\<exists>ps. map_option returned (simulate (IonTrapSimulator no_params) [] no_initialConditions
        (2 / 10 ^ 8) (1 / 10 ^ 8)) = Some (Inr ps) \<and>
      length ps = 2 \<and> (\<forall>p\<in>set ps. pt_stable p)) \<and>
   (\<exists>ps. map_option returned (simulate (IonTrapSimulator no_params) []
        (no_initialConditions\<lparr>ic_vx := Some 500000\<rparr>) (2 / 10 ^ 5) (1 / 10 ^ 8)) = Some (Inr ps) \<and>
      length ps = 2 \<and> beyond (IonTrapSimulator no_params) (last ps) \<and> \<not> pt_stable (last ps) \<and>
      (\<forall>p\<in>set (butlast ps). pt_stable p))"
proof
  from simulate_stable_flags [where this = "IonTrapSimulator no_params" and h = "[]"
      and ic = no_initialConditions and t_max = "2 / 10 ^ 8" and dt = "1 / 10 ^ 8"]
  show "\<exists>ps. map_option returned (simulate (IonTrapSimulator no_params) [] no_initialConditions
        (2 / 10 ^ 8) (1 / 10 ^ 8)) = Some (Inr ps) \<and>
      length ps = 2 \<and> (\<forall>p\<in>set ps. pt_stable p)"
    unfolding run_rest by (simp add: returned_def beyond_def IonTrapSimulator_def Let_def)
next
  from simulate_stable_flags [where this = "IonTrapSimulator no_params" and h = "[]"
      and ic = "no_initialConditions\<lparr>ic_vx := Some 500000\<rparr>" and t_max = "2 / 10 ^ 5"
      and dt = "1 / 10 ^ 8"]
  show "\<exists>ps. map_option returned (simulate (IonTrapSimulator no_params) []
        (no_initialConditions\<lparr>ic_vx := Some 500000\<rparr>) (2 / 10 ^ 5) (1 / 10 ^ 8)) = Some (Inr ps) \<and>
      length ps = 2 \<and> beyond (IonTrapSimulator no_params) (last ps) \<and> \<not> pt_stable (last ps) \<and>
      (\<forall>p\<in>set (butlast ps). pt_stable p)"
    unfolding run_escape2 by (simp add: returned_def beyond_def IonTrapSimulator_def Let_def)
qed

section \<open>The times of a trajectory\<close>



section \<open>The reference position of an escape\<close>

text \<open>
  Claim C3. A run with a positive step returns. In every run that returns, whatever
  \<^verbatim>\<open>lastStablePosition\<close> held before the call (the field is reset when the run starts):
  if the run ends by escape, the field refers to the trajectory point just before the
  escaping one, or to the point at index 0 when the escaping point is the only point;
  if the run ends without escape, the field is \<^verbatim>\<open>null\<close>.
\<close>

theorem simulate_lastStablePosition:
  "(0 < dt \<longrightarrow> (\<exists>r. simulate this h ic t_max dt = Some r)) \<and>
   (\<forall>r. simulate this h ic t_max dt = Some r \<longrightarrow>
      (\<exists>trajectory this' h'. r = Inr (trajectory, this', h') \<and>
         lastStablePosition this' =
           (if \<exists>p\<in>set (map (nth h') trajectory). beyond this p
            then Some (trajectory ! (if length trajectory = 1 then 0 else length trajectory - 2))
            else None) \<and>
         simulate (this\<lparr>lastStablePosition := l\<rparr>) h ic t_max dt = Some r))"
proof (intro conjI allI impI)
  assume "0 < dt"
  then show "\<exists>r. simulate this h ic t_max dt = Some r" by (rule simulate_terminates)
next
  fix r
  assume a: "simulate this h ic t_max dt = Some r"
  from simulate_result [OF a] obtain trajectory h' where
    "r = Inr (trajectory,
      this\<lparr>lastStablePosition :=
        if \<exists>p\<in>set (map (nth h') trajectory). beyond this p
        then Some (trajectory ! (if length trajectory = 1 then 0 else length trajectory - 2))
        else None\<rparr>, h')"
    by blast
  with a show "\<exists>trajectory this' h'. r = Inr (trajectory, this', h') \<and>
         lastStablePosition this' =
           (if \<exists>p\<in>set (map (nth h') trajectory). beyond this p
            then Some (trajectory ! (if length trajectory = 1 then 0 else length trajectory - 2))
            else None) \<and>
         simulate (this\<lparr>lastStablePosition := l\<rparr>) h ic t_max dt = Some r"
    by (simp add: simulate_reset)
qed

theorem simulate_lastStablePosition_witness:
  "(\<exists>trajectory this' h'.
      simulate (IonTrapSimulator no_params) [] (no_initialConditions\<lparr>ic_vx := Some 500000\<rparr>)
        (2 / 10 ^ 5) (1 / 10 ^ 8) = Some (Inr (trajectory, this', h')) \<and>
      length trajectory = 2 \<and> lastStablePosition this' = Some (trajectory ! 0)) \<and>
   (\<exists>trajectory this' h'.
      simulate (IonTrapSimulator no_params) [] (no_initialConditions\<lparr>ic_vx := Some 1000000\<rparr>)
        (2 / 10 ^ 5) (1 / 10 ^ 8) = Some (Inr (trajectory, this', h')) \<and>
      length trajectory = 1 \<and> lastStablePosition this' = Some (trajectory ! 0)) \<and>
   (\<exists>trajectory this' h'.
      simulate ((IonTrapSimulator no_params)\<lparr>lastStablePosition := Some 7\<rparr>) [] no_initialConditions
        (2 / 10 ^ 8) (1 / 10 ^ 8) = Some (Inr (trajectory, this', h')) \<and>
      lastStablePosition this' = None)"
proof (intro conjI)
  from simulate_lastStablePosition [where this = "IonTrapSimulator no_params" and h = "[]"
      and ic = "no_initialConditions\<lparr>ic_vx := Some 500000\<rparr>" and t_max = "2 / 10 ^ 5"
      and dt = "1 / 10 ^ 8"]
  show "\<exists>trajectory this' h'.
      simulate (IonTrapSimulator no_params) [] (no_initialConditions\<lparr>ic_vx := Some 500000\<rparr>)
        (2 / 10 ^ 5) (1 / 10 ^ 8) = Some (Inr (trajectory, this', h')) \<and>
      length trajectory = 2 \<and> lastStablePosition this' = Some (trajectory ! 0)"
    unfolding run_escape2 by (simp add: beyond_def IonTrapSimulator_def Let_def)
next
  from simulate_lastStablePosition [where this = "IonTrapSimulator no_params" and h = "[]"
      and ic = "no_initialConditions\<lparr>ic_vx := Some 1000000\<rparr>" and t_max = "2 / 10 ^ 5"
      and dt = "1 / 10 ^ 8"]
  show "\<exists>trajectory this' h'.
      simulate (IonTrapSimulator no_params) [] (no_initialConditions\<lparr>ic_vx := Some 1000000\<rparr>)
        (2 / 10 ^ 5) (1 / 10 ^ 8) = Some (Inr (trajectory, this', h')) \<and>
      length trajectory = 1 \<and> lastStablePosition this' = Some (trajectory ! 0)"
    unfolding run_escape1 by (simp add: beyond_def IonTrapSimulator_def Let_def)
next
  from simulate_lastStablePosition [where this = "IonTrapSimulator no_params" and h = "[]"
      and ic = no_initialConditions and t_max = "2 / 10 ^ 8" and dt = "1 / 10 ^ 8"
      and l = "Some 7"] run_rest
  show "\<exists>trajectory this' h'.
      simulate ((IonTrapSimulator no_params)\<lparr>lastStablePosition := Some 7\<rparr>) [] no_initialConditions
        (2 / 10 ^ 8) (1 / 10 ^ 8) = Some (Inr (trajectory, this', h')) \<and>
      lastStablePosition this' = None"
    by (auto simp: beyond_def IonTrapSimulator_def Let_def)
qed

section \<open>The stability verdict\<close>

text \<open>
  Claim C4. When \<open>\<bar>q\<^sub>x\<bar> \<ge> 0.908\<close> or \<open>\<bar>a\<^sub>x\<bar> \<ge> 0.237\<close>, \<^verbatim>\<open>isStable\<close> returns
  \<^verbatim>\<open>false\<close> whatever \<^verbatim>\<open>lastStablePosition\<close> holds and whatever the store holds there.
\<close>

theorem isStable_analytic_test_forces_false:
  assumes "908 / 1000 \<le> \<bar>sim_qx this\<bar> \<or> 237 / 1000 \<le> \<bar>sim_ax this\<bar>"
  shows "\<not> isStable h (this\<lparr>lastStablePosition := l\<rparr>)"
  using assms by (auto simp: isStable_def Let_def)

theorem isStable_analytic_test_forces_false_witness:
  "908 / 1000 \<le> \<bar>sim_qx (IonTrapSimulator (no_params\<lparr>p_V := Some 15\<rparr>))\<bar> \<and>
   \<not> isStable [] ((IonTrapSimulator (no_params\<lparr>p_V := Some 15\<rparr>))\<lparr>lastStablePosition := None\<rparr>)"
proof -
  have q: "908 / 1000 \<le> \<bar>sim_qx (IonTrapSimulator (no_params\<lparr>p_V := Some 15\<rparr>))\<bar>"
    by (simp add: IonTrapSimulator_def no_params_def or_default_def calculateAx_def calculateQx_def
        Let_def)
  then have "908 / 1000 \<le> \<bar>sim_qx (IonTrapSimulator (no_params\<lparr>p_V := Some 15\<rparr>))\<bar> \<or>
      237 / 1000 \<le> \<bar>sim_ax (IonTrapSimulator (no_params\<lparr>p_V := Some 15\<rparr>))\<bar>" by simp
  from q isStable_analytic_test_forces_false [OF this, of "[]" None] show ?thesis by simp
qed

section \<open>Determinism\<close>

text \<open>
  Claim C5. Two simulators built from the same parameters, whatever runs they made before
  (\<^verbatim>\<open>lastStablePosition\<close> is the only field a run writes) and whatever the store holds at
  the call, behave alike on the same initial conditions, duration and step: both calls return,
  with trajectories equal point by point in every field, or neither call returns.
\<close>

theorem simulate_deterministic:
  "map_option returned (simulate ((IonTrapSimulator ps)\<lparr>lastStablePosition := l1\<rparr>) h1 ic t_max dt) =
   map_option returned (simulate ((IonTrapSimulator ps)\<lparr>lastStablePosition := l2\<rparr>) h2 ic t_max dt)"
  by (rule simulate_same_eq) (simp add: same_trap_def)

theorem simulate_deterministic_witness:
  "map_option returned
     (simulate ((IonTrapSimulator no_params)\<lparr>lastStablePosition := Some 0\<rparr>)
        [\<lparr>pt_t = 0, pt_x = 11, pt_y = 1, pt_stable = False\<rparr>] no_initialConditions
        (2 / 10 ^ 8) (1 / 10 ^ 8)) =
   Some (Inr [\<lparr>pt_t = 0, pt_x = 1, pt_y = 1, pt_stable = True\<rparr>,
              \<lparr>pt_t = 1 / 100, pt_x = 1, pt_y = 1, pt_stable = True\<rparr>])"
proof -
  have n: "(IonTrapSimulator no_params)\<lparr>lastStablePosition := None\<rparr> = IonTrapSimulator no_params"
    by (simp add: IonTrapSimulator_def Let_def)
  have "map_option returned
     (simulate ((IonTrapSimulator no_params)\<lparr>lastStablePosition := Some 0\<rparr>)
        [\<lparr>pt_t = 0, pt_x = 11, pt_y = 1, pt_stable = False\<rparr>] no_initialConditions
        (2 / 10 ^ 8) (1 / 10 ^ 8)) =
    map_option returned
     (simulate (IonTrapSimulator no_params) [] no_initialConditions (2 / 10 ^ 8) (1 / 10 ^ 8))"
    using simulate_deterministic [where ps = no_params and ?l1.0 = "Some 0"
      and ?h1.0 = "[\<lparr>pt_t = 0, pt_x = 11, pt_y = 1, pt_stable = False\<rparr>]"
      and ic = no_initialConditions and t_max = "2 / 10 ^ 8" and dt = "1 / 10 ^ 8"
      and ?l2.0 = None and ?h2.0 = "[]"]
    unfolding n .
  then show ?thesis unfolding run_rest by (simp add: returned_def)
qed

section \<open>The fixed window of the presentation shell\<close>



section \<open>Defaults and division by zero\<close>



text \<open>
  Claim C8. A zero that is supplied is replaced like an absent value: with \<^verbatim>\<open>x = 0\<close>
  (or \<^verbatim>\<open>y = 0\<close>) in the initial conditions the loop starts from \<open>1 / 1000\<close> on that axis,
  as it does when the field is absent; and the constructor turns \<^verbatim>\<open>omega = 0\<close> into
  \<^verbatim>\<open>1e6\<close>, as it does an absent \<^verbatim>\<open>omega\<close>.
\<close>

theorem falsy_zero_defaults:
  "simulate this h (ic\<lparr>ic_x := Some 0\<rparr>) t_max dt =
     simulate_loop (this\<lparr>lastStablePosition := None\<rparr>) t_max dt h [] (1 / 1000)
       (or_default (ic_y ic) (1 / 1000)) (or_default (ic_vx ic) 0) (or_default (ic_vy ic) 0) 0 \<and>
   simulate this h (ic\<lparr>ic_y := Some 0\<rparr>) t_max dt =
     simulate_loop (this\<lparr>lastStablePosition := None\<rparr>) t_max dt h []
       (or_default (ic_x ic) (1 / 1000)) (1 / 1000) (or_default (ic_vx ic) 0) (or_default (ic_vy ic) 0) 0 \<and>
   simulate this h (ic\<lparr>ic_x := Some 0\<rparr>) t_max dt = simulate this h (ic\<lparr>ic_x := None\<rparr>) t_max dt \<and>
   simulate this h (ic\<lparr>ic_y := Some 0\<rparr>) t_max dt = simulate this h (ic\<lparr>ic_y := None\<rparr>) t_max dt \<and>
   sim_omega (IonTrapSimulator (ps\<lparr>p_omega := Some 0\<rparr>)) = 1000000 \<and>
   IonTrapSimulator (ps\<lparr>p_omega := Some 0\<rparr>) = IonTrapSimulator (ps\<lparr>p_omega := None\<rparr>)"
  by (simp add: simulate_def or_default_def IonTrapSimulator_def Let_def)

theorem falsy_zero_defaults_witness:
  "trajectory_of (simulate (IonTrapSimulator no_params) [] (no_initialConditions\<lparr>ic_x := Some 0\<rparr>)
      (2 / 10 ^ 8) (1 / 10 ^ 8)) =
   [\<lparr>pt_t = 0, pt_x = 1, pt_y = 1, pt_stable = True\<rparr>,
    \<lparr>pt_t = 1 / 100, pt_x = 1, pt_y = 1, pt_stable = True\<rparr>]"
proof -
  have n: "no_initialConditions\<lparr>ic_x := None\<rparr> = no_initialConditions"
    by (simp add: no_initialConditions_def)
  from falsy_zero_defaults [where this = "IonTrapSimulator no_params" and h = "[]"
      and ic = no_initialConditions and t_max = "2 / 10 ^ 8" and dt = "1 / 10 ^ 8"]
  have "simulate (IonTrapSimulator no_params) [] (no_initialConditions\<lparr>ic_x := Some 0\<rparr>)
      (2 / 10 ^ 8) (1 / 10 ^ 8) =
    simulate (IonTrapSimulator no_params) [] no_initialConditions (2 / 10 ^ 8) (1 / 10 ^ 8)"
    unfolding n by blast
  then show ?thesis unfolding run_rest by (simp add: trajectory_of_def)
qed

section \<open>The time stamp of a point\<close>




section \<open>The verdict without an escape\<close>

text \<open>
  Claim C10. On a freshly constructed simulator, and after a run in which no recorded point
  lies beyond the boundary, \<^verbatim>\<open>lastStablePosition\<close> is \<^verbatim>\<open>null\<close> and \<^verbatim>\<open>isStable\<close>
  returns the analytic test alone, \<open>\<bar>q\<^sub>x\<bar> < 0.908\<close> and \<open>\<bar>a\<^sub>x\<bar> < 0.237\<close>; the test on
  \<open>a\<^sub>y\<close> and \<open>q\<^sub>y\<close> adds nothing, since \<open>a\<^sub>y = - a\<^sub>x\<close> and \<open>q\<^sub>y = - q\<^sub>x\<close>.
\<close>

theorem isStable_without_escape:
  "(isStable h (IonTrapSimulator ps) \<longleftrightarrow>
      \<bar>sim_qx (IonTrapSimulator ps)\<bar> < 908 / 1000 \<and> \<bar>sim_ax (IonTrapSimulator ps)\<bar> < 237 / 1000) \<and>
   (simulate (IonTrapSimulator ps) h ic t_max dt = Some (Inr (trajectory, this', h')) \<and>
    \<not> (\<exists>p\<in>set (map (nth h') trajectory). beyond this' p) \<longrightarrow>
      lastStablePosition this' = None \<and>
      (isStable h' this' \<longleftrightarrow>
         \<bar>sim_qx (IonTrapSimulator ps)\<bar> < 908 / 1000 \<and> \<bar>sim_ax (IonTrapSimulator ps)\<bar> < 237 / 1000)) \<and>
   sim_ay (IonTrapSimulator ps) = - sim_ax (IonTrapSimulator ps) \<and>
   sim_qy (IonTrapSimulator ps) = - sim_qx (IonTrapSimulator ps)"
proof -
  let ?s = "IonTrapSimulator ps"
  let ?A = "\<bar>sim_qx ?s\<bar> < 908 / 1000 \<and> \<bar>sim_ax ?s\<bar> < 237 / 1000"
  note m = constructed_mirror [of ps]
  have e: "?s\<lparr>lastStablePosition := None\<rparr> = ?s"
    by (simp add: IonTrapSimulator_def Let_def)
  have fresh: "isStable h ?s \<longleftrightarrow> ?A"
    using isStable_null [of ?s h] m unfolding e by simp
  have run: "lastStablePosition this' = None \<and> (isStable h' this' \<longleftrightarrow> ?A)"
    if r: "simulate ?s h ic t_max dt = Some (Inr (trajectory, this', h'))"
      and n: "\<not> (\<exists>p\<in>set (map (nth h') trajectory). beyond this' p)"
  proof -
    from simulate_result [OF r] have
      t: "this' = ?s\<lparr>lastStablePosition :=
        if \<exists>p\<in>set (map (nth h') trajectory). beyond ?s p
        then Some (trajectory ! (if length trajectory = 1 then 0 else length trajectory - 2))
        else None\<rparr>"
      by simp
    have "beyond this' = beyond ?s" by (subst t) (simp add: beyond_update fun_eq_iff)
    with n t have "this' = ?s\<lparr>lastStablePosition := None\<rparr>" by simp
    then show ?thesis using isStable_null [of ?s h'] m by simp
  qed
  from fresh run m show ?thesis by blast
qed

theorem isStable_without_escape_witness:
  "simulate (IonTrapSimulator no_params) [] no_initialConditions (2 / 10 ^ 8) (1 / 10 ^ 8) =
     Some (Inr ([0, 1], IonTrapSimulator no_params,
       [\<lparr>pt_t = 0, pt_x = 1, pt_y = 1, pt_stable = True\<rparr>,
        \<lparr>pt_t = 1 / 100, pt_x = 1, pt_y = 1, pt_stable = True\<rparr>])) \<and>
   isStable [\<lparr>pt_t = 0, pt_x = 1, pt_y = 1, pt_stable = True\<rparr>,
             \<lparr>pt_t = 1 / 100, pt_x = 1, pt_y = 1, pt_stable = True\<rparr>] (IonTrapSimulator no_params)"
proof -
  have a: "\<bar>sim_qx (IonTrapSimulator no_params)\<bar> < 908 / 1000 \<and>
           \<bar>sim_ax (IonTrapSimulator no_params)\<bar> < 237 / 1000"
    by (simp add: IonTrapSimulator_def no_params_def or_default_def calculateAx_def calculateQx_def
        Let_def)
  have n: "\<not> (\<exists>p\<in>set (map (nth [\<lparr>pt_t = 0, pt_x = 1, pt_y = 1, pt_stable = True\<rparr>,
        \<lparr>pt_t = 1 / 100, pt_x = 1, pt_y = 1, pt_stable = True\<rparr>]) [0, 1]).
      beyond (IonTrapSimulator no_params) p)"
    by (simp add: beyond_def IonTrapSimulator_def Let_def)
  from isStable_without_escape [of "[]" no_params no_initialConditions "2 / 10 ^ 8" "1 / 10 ^ 8"
      "[0, 1]" "IonTrapSimulator no_params"
      "[\<lparr>pt_t = 0, pt_x = 1, pt_y = 1, pt_stable = True\<rparr>,
        \<lparr>pt_t = 1 / 100, pt_x = 1, pt_y = 1, pt_stable = True\<rparr>]"] run_rest a n
  show ?thesis by blast
qed

end
